theory Spec2Isabelle
  imports Main
begin

section \<open>Runtime values the program handles\<close>

text \<open>
  The program is one Go file, \<^verbatim>\<open>main.go\<close>: two HTTP handlers, the construction of
  the route table, and the start and stop hooks of the server. Its own functions are
  translated below one by one. They drive a few operations of Go's standard library
  (\<^verbatim>\<open>io.Copy\<close>, \<^verbatim>\<open>io.ReadAll\<close>, \<^verbatim>\<open>fmt.Fprintf\<close>, \<^verbatim>\<open>http.Error\<close>, \<^verbatim>\<open>http.ServeMux\<close>),
  which are not part of the repository; those are modelled after their documented
  behaviour, each in a definition of its own that says so. What the operating system
  or the network decides (whether a port can be bound, how many bytes a connection
  still takes, what a shutdown returns) is an explicit parameter.

  A byte is a \<^typ>\<open>char\<close> (256 values), a byte slice a \<^typ>\<open>string\<close>.
\<close>

type_synonym bytes = string

text \<open>Go \<^verbatim>\<open>error\<close> values; \<^verbatim>\<open>nil\<close> is \<open>None\<close> of \<open>go_error option\<close>.\<close>

datatype go_error = EOF | ErrShortWrite | ErrInvalidWrite | Err string

subsection \<open>The logger\<close>

text \<open>
  \<^verbatim>\<open>*zap.Logger\<close>: every component holds a pointer to the one logger of the
  application, so the logger is a piece of state that the functions pass on: the list
  of entries written so far, oldest first.
\<close>

datatype Level = InfoLevel | WarnLevel | ErrorLevel

datatype Field = zap_Error go_error | zap_String string string

type_synonym Entry = "Level \<times> string \<times> Field list"

type_synonym Logger = "Entry list"

definition Logger_Info :: "Logger \<Rightarrow> string \<Rightarrow> Field list \<Rightarrow> Logger" where
  "Logger_Info log msg fields = log @ [(InfoLevel, msg, fields)]"

definition Logger_Warn :: "Logger \<Rightarrow> string \<Rightarrow> Field list \<Rightarrow> Logger" where
  "Logger_Warn log msg fields = log @ [(WarnLevel, msg, fields)]"

definition Logger_Error :: "Logger \<Rightarrow> string \<Rightarrow> Field list \<Rightarrow> Logger" where
  "Logger_Error log msg fields = log @ [(ErrorLevel, msg, fields)]"

subsection \<open>The request body: an \<^verbatim>\<open>io.Reader\<close>\<close>

text \<open>
  A reader is the script of what its successive \<^verbatim>\<open>Read\<close> calls return: some bytes
  (possibly none) and an error (possibly \<^verbatim>\<open>nil\<close>). Once the script is used up every
  further call returns no bytes and \<^verbatim>\<open>io.EOF\<close>. A request body is finite, so the
  script is a list.
\<close>

type_synonym Reader = "(bytes \<times> go_error option) list"

fun Read :: "Reader \<Rightarrow> (bytes \<times> go_error option) \<times> Reader" where
  "Read [] = (([], Some EOF), [])"
| "Read (res # rd) = (res, rd)"


fun delivered :: "Reader \<Rightarrow> bytes" where
  "delivered [] = []"
| "delivered ((buf, None) # rd) = buf @ delivered rd"
| "delivered ((buf, Some e) # rd) = buf"

fun first_error :: "Reader \<Rightarrow> go_error option" where
  "first_error [] = None"
| "first_error ((buf, None) # rd) = first_error rd"
| "first_error ((buf, Some e) # rd) = (if e = EOF then None else Some e)"

subsection \<open>The response: an \<^verbatim>\<open>http.ResponseWriter\<close>\<close>

text \<open>
  \<open>status\<close> is \<open>None\<close> until the header is written; \<open>written\<close> is the response
  body sent so far; \<open>room\<close> is what the connection decides: \<open>None\<close> when it takes
  every byte, \<open>Some k\<close> when it takes \<open>k\<close> more bytes and then fails (the client has
  gone).
\<close>

record ResponseWriter =
  status :: "nat option"
  header :: "(string \<times> string) list"
  written :: bytes
  room :: "nat option"

definition newResponse :: "nat option \<Rightarrow> ResponseWriter" where
  "newResponse rm = \<lparr>status = None, header = [], written = [], room = rm\<rparr>"

definition StatusOK :: nat where "StatusOK = 200"



definition StatusInternalServerError :: nat where "StatusInternalServerError = 500"

definition write_failed :: go_error where
  "write_failed = Err ''write: broken pipe''"

text \<open>\<^verbatim>\<open>WriteHeader\<close>: the first call fixes the status, a later one is ignored.\<close>

definition WriteHeader :: "ResponseWriter \<Rightarrow> nat \<Rightarrow> ResponseWriter" where
  "WriteHeader w code = (if status w = None then w\<lparr>status := Some code\<rparr> else w)"

text \<open>
  \<^verbatim>\<open>Write\<close>: writes the header with status 200 first if none was written, then
  sends the bytes, as many as the connection takes. It returns the number of bytes
  sent and the error.
\<close>

definition Write :: "ResponseWriter \<Rightarrow> bytes \<Rightarrow> (nat \<times> go_error option) \<times> ResponseWriter" where
  "Write w p =
     (let w1 = WriteHeader w StatusOK in
      case room w1 of
        None \<Rightarrow> ((length p, None), w1\<lparr>written := written w1 @ p\<rparr>)
      | Some k \<Rightarrow>
          if length p \<le> k
          then ((length p, None), w1\<lparr>written := written w1 @ p, room := Some (k - length p)\<rparr>)
          else ((k, Some write_failed), w1\<lparr>written := written w1 @ take k p, room := Some 0\<rparr>))"

text \<open>The connection takes \<open>n\<close> more bytes.\<close>

definition accepts :: "ResponseWriter \<Rightarrow> nat \<Rightarrow> bool" where
  "accepts w n = (case room w of None \<Rightarrow> True | Some k \<Rightarrow> n \<le> k)"

definition Header_Set :: "ResponseWriter \<Rightarrow> string \<Rightarrow> string \<Rightarrow> ResponseWriter" where
  "Header_Set w key val = w\<lparr>header := (key, val) # filter (\<lambda>kv. fst kv \<noteq> key) (header w)\<rparr>"


subsection \<open>Library operations the handlers call\<close>

text \<open>
  \<^verbatim>\<open>io.Copy(dst, src)\<close>: reads until end of stream or error and writes every
  non-empty chunk; stops at the first write error, short write or read error. Returns
  the number of bytes written and the error, \<^verbatim>\<open>nil\<close> at end of stream.
\<close>

fun io_Copy :: "ResponseWriter \<Rightarrow> Reader \<Rightarrow> (nat \<times> go_error option) \<times> ResponseWriter \<times> Reader" where
  "io_Copy dst [] = ((0, None), dst, [])"
| "io_Copy dst ((buf, er) # src) =
     (let ((nw, ew), dst') = (if buf \<noteq> [] then Write dst buf else ((0, None), dst)) in
      if buf \<noteq> [] \<and> length buf < nw then ((0, Some (case ew of None \<Rightarrow> ErrInvalidWrite | Some e \<Rightarrow> e)), dst', src)
      else if ew \<noteq> None then ((nw, ew), dst', src)
      else if length buf \<noteq> nw then ((nw, Some ErrShortWrite), dst', src)
      else (case er of
              Some e \<Rightarrow> ((nw, if e = EOF then None else Some e), dst', src)
            | None \<Rightarrow>
                (case io_Copy dst' src of
                   ((n, err), dst'', src') \<Rightarrow> ((nw + n, err), dst'', src'))))"

text \<open>
  \<^verbatim>\<open>io.ReadAll(r)\<close>: reads until end of stream or error and returns what it read;
  the end of the stream is not reported as an error.
\<close>

fun io_ReadAll :: "Reader \<Rightarrow> (bytes \<times> go_error option) \<times> Reader" where
  "io_ReadAll [] = (([], None), [])"
| "io_ReadAll ((buf, er) # r) =
     (case er of
        Some e \<Rightarrow> ((buf, if e = EOF then None else Some e), r)
      | None \<Rightarrow> (case io_ReadAll r of ((b, err), r') \<Rightarrow> ((buf @ b, err), r')))"

text \<open>
  \<^verbatim>\<open>fmt\<close>: the format string is copied, each \<^verbatim>\<open>%s\<close> replaced by the next
  argument, a byte slice going out byte for byte. Only \<^verbatim>\<open>%s\<close> is interpreted, the
  one verb the program uses; other verbs and surplus arguments are outside the model.
  \<^verbatim>\<open>Fprintf\<close> formats into a buffer and hands it to the writer in one \<^verbatim>\<open>Write\<close>.
\<close>

fun Sprintf :: "string \<Rightarrow> bytes list \<Rightarrow> bytes" where
  "Sprintf [] args = []"
| "Sprintf [c] args = [c]"
| "Sprintf (c # d # fmt) args =
     (if c = CHR ''%'' \<and> d = CHR ''s''
      then (case args of
              a # as \<Rightarrow> a @ Sprintf fmt as
            | [] \<Rightarrow> ''%!s(MISSING)'' @ Sprintf fmt [])
      else c # Sprintf (d # fmt) args)"

definition fmt_Fprintf :: "ResponseWriter \<Rightarrow> string \<Rightarrow> bytes list \<Rightarrow> (nat \<times> go_error option) \<times> ResponseWriter" where
  "fmt_Fprintf w fmt args = Write w (Sprintf fmt args)"

definition fmt_Fprintln :: "ResponseWriter \<Rightarrow> string \<Rightarrow> (nat \<times> go_error option) \<times> ResponseWriter" where
  "fmt_Fprintln w s = Write w (s @ ''\<newline>'')"

text \<open>
  \<^verbatim>\<open>http.Error(w, error, code)\<close>: sets the plain-text headers, writes the header
  with the given status and the message on a line. It returns nothing: a failure to
  write the message is dropped.
\<close>

definition http_Error :: "ResponseWriter \<Rightarrow> string \<Rightarrow> nat \<Rightarrow> ResponseWriter" where
  "http_Error w error code =
     (let w1 = Header_Set w ''Content-Type'' ''text/plain; charset=utf-8'';
          w2 = Header_Set w1 ''X-Content-Type-Options'' ''nosniff'';
          w3 = WriteHeader w2 code
      in snd (fmt_Fprintln w3 error))"

section \<open>The handlers\<close>

record Request =
  Method :: string
  Path :: string
  Body :: Reader

text \<open>
  A handler call returns the response writer, the request (its body read as far as
  the handler read it) and the logger, each as the handler left it.
\<close>

type_synonym Exchange = "ResponseWriter \<times> Request \<times> Logger"

text \<open>\<^verbatim>\<open>func (h *EchoHandler) ServeHTTP(w http.ResponseWriter, r *http.Request)\<close>\<close>

definition EchoHandler_ServeHTTP :: "Logger \<Rightarrow> ResponseWriter \<Rightarrow> Request \<Rightarrow> Exchange" where
  "EchoHandler_ServeHTTP log w r =
     (case io_Copy w (Body r) of
        ((n, err), w', body') \<Rightarrow>
          (case err of
             Some e \<Rightarrow> (w', r\<lparr>Body := body'\<rparr>, Logger_Warn log ''Failed to handle request'' [zap_Error e])
           | None \<Rightarrow> (w', r\<lparr>Body := body'\<rparr>, log)))"

text \<open>\<^verbatim>\<open>func (h *HelloHandler) ServeHTTP(w http.ResponseWriter, r *http.Request)\<close>\<close>

definition HelloHandler_ServeHTTP :: "Logger \<Rightarrow> ResponseWriter \<Rightarrow> Request \<Rightarrow> Exchange" where
  "HelloHandler_ServeHTTP log w r =
     (case io_ReadAll (Body r) of
        ((body, err), body') \<Rightarrow>
          (case err of
             Some e \<Rightarrow>
               (http_Error w ''Internal server error'' StatusInternalServerError,
                r\<lparr>Body := body'\<rparr>,
                Logger_Error log ''Failed to read request'' [zap_Error e])
           | None \<Rightarrow>
               (case fmt_Fprintf w ''Hello, %s\<newline>'' [body] of
                  ((n, err'), w') \<Rightarrow>
                    (case err' of
                       Some e \<Rightarrow>
                         (http_Error w' ''Internal server error'' StatusInternalServerError,
                          r\<lparr>Body := body'\<rparr>,
                          Logger_Error log ''Failed to write response'' [zap_Error e])
                     | None \<Rightarrow> (w', r\<lparr>Body := body'\<rparr>, log)))))"

section \<open>Routes and the route table\<close>

text \<open>
  \<^verbatim>\<open>type Route interface { http.Handler; Pattern() string }\<close>: a value of the
  interface is the pair of its two methods.
\<close>

record Route =
  Pattern :: string
  ServeHTTP :: "Logger \<Rightarrow> ResponseWriter \<Rightarrow> Request \<Rightarrow> Exchange"

definition EchoHandler_Pattern :: string where
  "EchoHandler_Pattern = ''/echo''"

definition HelloHandler_Pattern :: string where
  "HelloHandler_Pattern = ''/hello''"

text \<open>
  \<^verbatim>\<open>AsRoute(NewEchoHandler)\<close> and \<^verbatim>\<open>AsRoute(NewHelloHandler)\<close>: the two handlers
  as values of \<^verbatim>\<open>Route\<close>. The logger they are built with is the shared one, which
  \<open>ServeHTTP\<close> is handed at each call.
\<close>

definition NewEchoHandler :: Route where
  "NewEchoHandler = \<lparr>Pattern = EchoHandler_Pattern, ServeHTTP = EchoHandler_ServeHTTP\<rparr>"

definition NewHelloHandler :: Route where
  "NewHelloHandler = \<lparr>Pattern = HelloHandler_Pattern, ServeHTTP = HelloHandler_ServeHTTP\<rparr>"

subsection \<open>\<^verbatim>\<open>http.ServeMux\<close>\<close>

text \<open>
  The library's route table, modelled after its documentation: the registered
  patterns with their handlers, in the order of registration. \<^verbatim>\<open>Handle\<close> panics
  when the pattern is empty or already registered; the panic is the \<open>Inl\<close> of the
  result, with its message. (It also panics on a \<^verbatim>\<open>nil\<close> handler; a \<open>Route\<close> here is
  never \<^verbatim>\<open>nil\<close>.) Patterns here are paths: patterns that name a host or a method
  are outside the model.
\<close>

type_synonym ServeMux = "(string \<times> Route) list"

definition http_NewServeMux :: ServeMux where
  "http_NewServeMux = []"

definition ServeMux_Handle :: "ServeMux \<Rightarrow> string \<Rightarrow> Route \<Rightarrow> string + ServeMux" where
  "ServeMux_Handle mux pattern handler =
     (if pattern = [] then Inl ''http: invalid pattern''
      else if map_of mux pattern \<noteq> None then Inl (''http: multiple registrations for '' @ pattern)
      else Inr (mux @ [(pattern, handler)]))"













subsection \<open>\<^verbatim>\<open>NewServeMux\<close>\<close>

text \<open>
  \<^verbatim>\<open>for _, route := range routes { mux.Handle(route.Pattern(), route) }\<close>: a
  panic of \<^verbatim>\<open>Handle\<close> ends the loop and the function.
\<close>

fun NewServeMux_loop :: "ServeMux \<Rightarrow> Route list \<Rightarrow> string + ServeMux" where
  "NewServeMux_loop mux [] = Inr mux"
| "NewServeMux_loop mux (route # routes) =
     (case ServeMux_Handle mux (Pattern route) route of
        Inl panic \<Rightarrow> Inl panic
      | Inr mux' \<Rightarrow> NewServeMux_loop mux' routes)"

definition NewServeMux :: "Route list \<Rightarrow> string + ServeMux" where
  "NewServeMux routes = NewServeMux_loop http_NewServeMux routes"

section \<open>The server and its lifecycle hooks\<close>

record Server =
  Addr :: string
  Handler :: ServeMux

datatype Listener = Listener string string

text \<open>
  What the hooks do to the world outside: the calls they make, in order. The
  statement \<^verbatim>\<open>go srv.Serve(ln)\<close> starts the serving loop and does not wait for it;
  it is recorded as \<open>Go_Serve\<close>.
\<close>

datatype Effect = Listen string string | Go_Serve Server Listener | Shutdown Server

record World =
  logger :: Logger
  effects :: "Effect list"

definition NewHTTPServer :: "ServeMux \<Rightarrow> Server" where
  "NewHTTPServer mux = \<lparr>Addr = '':8080'', Handler = mux\<rparr>"

text \<open>
  \<^verbatim>\<open>OnStart\<close>; \<open>net_Listen\<close> is the operating system's answer to a request to
  bind an address.
\<close>

definition OnStart :: "(string \<Rightarrow> string \<Rightarrow> go_error + Listener) \<Rightarrow> Server \<Rightarrow> World \<Rightarrow> go_error option \<times> World" where
  "OnStart net_Listen srv s =
     (let s1 = s\<lparr>effects := effects s @ [Listen ''tcp'' (Addr srv)]\<rparr> in
      case net_Listen ''tcp'' (Addr srv) of
        Inl err \<Rightarrow> (Some err, s1)
      | Inr ln \<Rightarrow>
          (None,
           s1\<lparr>logger := Logger_Info (logger s1) ''Starting HTTP server at'' [zap_String ''addr'' (Addr srv)],
              effects := effects s1 @ [Go_Serve srv ln]\<rparr>))"

text \<open>
  \<^verbatim>\<open>OnStop\<close> returns what \<^verbatim>\<open>srv.Shutdown(ctx)\<close> returns; that result is the
  parameter \<open>shutdown_result\<close>.
\<close>

definition OnStop :: "go_error option \<Rightarrow> Server \<Rightarrow> World \<Rightarrow> go_error option \<times> World" where
  "OnStop shutdown_result srv s = (shutdown_result, s\<lparr>effects := effects s @ [Shutdown srv]\<rparr>)"

subsection \<open>The application\<close>

text \<open>
  \<^verbatim>\<open>main\<close>: the framework calls each constructor once, in the order of their
  dependencies: the logger, the handlers of the group \<^verbatim>\<open>routes\<close> (in an order the
  framework chooses), \<^verbatim>\<open>NewServeMux\<close> on that group, \<^verbatim>\<open>NewHTTPServer\<close> on the table.
\<close>

record App =
  server :: Server
  world :: World

definition fx_New :: "Route list \<Rightarrow> string + App" where
  "fx_New routes =
     (case NewServeMux routes of
        Inl panic \<Rightarrow> Inl panic
      | Inr mux \<Rightarrow> Inr \<lparr>server = NewHTTPServer mux, world = \<lparr>logger = [], effects = []\<rparr>\<rparr>)"


section \<open>Properties of the library model\<close>

text \<open>The two loops, written with \<open>Read\<close> as the library writes them.\<close>

lemma io_ReadAll_loop:
  "io_ReadAll r =
     (case Read r of
        ((buf, er), r') \<Rightarrow>
          (case er of
             Some e \<Rightarrow> ((buf, if e = EOF then None else Some e), r')
           | None \<Rightarrow> (case io_ReadAll r' of ((b, err), r'') \<Rightarrow> ((buf @ b, err), r''))))"
  by (cases r) (auto split: option.splits prod.splits)

lemma io_Copy_loop:
  "io_Copy dst src =
     (case Read src of
        ((buf, er), src') \<Rightarrow>
          (let ((nw, ew), dst') = (if buf \<noteq> [] then Write dst buf else ((0, None), dst)) in
           if buf \<noteq> [] \<and> length buf < nw
           then ((0, Some (case ew of None \<Rightarrow> ErrInvalidWrite | Some e \<Rightarrow> e)), dst', src')
           else if ew \<noteq> None then ((nw, ew), dst', src')
           else if length buf \<noteq> nw then ((nw, Some ErrShortWrite), dst', src')
           else (case er of
                   Some e \<Rightarrow> ((nw, if e = EOF then None else Some e), dst', src')
                 | None \<Rightarrow>
                     (case io_Copy dst' src' of
                        ((n, err), dst'', src'') \<Rightarrow> ((nw + n, err), dst'', src'')))))"
  by (cases src) (auto simp: Let_def split: option.splits prod.splits)

subsection \<open>One \<^verbatim>\<open>Write\<close>\<close>

lemma room_Write:
  "room (snd (Write w p)) = (case room w of None \<Rightarrow> None | Some k \<Rightarrow> Some (k - length p))"
  by (cases "room w") (auto simp: Write_def WriteHeader_def Let_def)

lemma written_Write:
  "written (snd (Write w p)) = written w @ (case room w of None \<Rightarrow> p | Some k \<Rightarrow> take k p)"
  by (cases "room w") (auto simp: Write_def WriteHeader_def Let_def)

lemma status_Write:
  "status (snd (Write w p)) = Some (case status w of None \<Rightarrow> StatusOK | Some c \<Rightarrow> c)"
  by (cases "room w") (auto simp: Write_def WriteHeader_def Let_def)

lemma header_Write: "header (snd (Write w p)) = header w"
  by (cases "room w") (auto simp: Write_def WriteHeader_def Let_def)

lemma fst_Write:
  "fst (Write w p) =
     (if accepts w (length p) then (length p, None) else (the (room w), Some write_failed))"
  by (cases "room w") (auto simp: Write_def WriteHeader_def Let_def accepts_def)

subsection \<open>\<^verbatim>\<open>io.Copy\<close>\<close>

text \<open>One turn of the loop, by what the connection does with the chunk.\<close>

lemma io_Copy_Cons:
  "io_Copy dst ((buf, er) # src) =
     (if buf = [] then
        (case er of
           Some e \<Rightarrow> ((0, if e = EOF then None else Some e), dst, src)
         | None \<Rightarrow> io_Copy dst src)
      else if \<not> accepts dst (length buf)
      then ((the (room dst), Some write_failed), snd (Write dst buf), src)
      else (case er of
              Some e \<Rightarrow> ((length buf, if e = EOF then None else Some e), snd (Write dst buf), src)
            | None \<Rightarrow>
                (case io_Copy (snd (Write dst buf)) src of
                   ((n, err), dst'', src') \<Rightarrow> ((length buf + n, err), dst'', src'))))"
proof -
  obtain nw ew dst' where W: "Write dst buf = ((nw, ew), dst')"
    by (metis prod.exhaust)
  with fst_Write [of dst buf]
  have F: "(nw, ew) =
      (if accepts dst (length buf) then (length buf, None) else (the (room dst), Some write_failed))"
    by simp
  have lt: "\<not> accepts dst (length buf) \<Longrightarrow> the (room dst) < length buf"
    by (cases "room dst") (auto simp: accepts_def)
  show ?thesis
    using W F lt by (auto split: option.splits prod.splits if_splits)
qed

text \<open>
  The error \<^verbatim>\<open>io.Copy\<close> returns: the write error when the connection does not
  take all the bytes the body delivers, else the read error if there is one.
\<close>

lemma io_Copy_error:
  "snd (fst (io_Copy dst src)) =
     (if accepts dst (length (delivered src)) then first_error src else Some write_failed)"
proof (induction src arbitrary: dst)
  case Nil
  then show ?case by (cases "room dst") (simp_all add: accepts_def)
next
  case (Cons res src)
  obtain buf er where res: "res = (buf, er)" by (cases res)
  show ?case
    unfolding res io_Copy_Cons
    using Cons.IH [of dst] Cons.IH [of "snd (Write dst buf)"]
    by (cases "room dst")
      (auto simp: accepts_def room_Write split: option.splits prod.splits)
qed

text \<open>What has been sent after \<^verbatim>\<open>io.Copy\<close>: the bytes delivered, as far as they went.\<close>

lemma io_Copy_written:
  "written (fst (snd (io_Copy dst src))) =
     written dst @ (case room dst of None \<Rightarrow> delivered src | Some k \<Rightarrow> take k (delivered src))"
proof (induction src arbitrary: dst)
  case Nil
  then show ?case by (cases "room dst") simp_all
next
  case (Cons res src)
  obtain buf er where res: "res = (buf, er)" by (cases res)
  show ?case
    unfolding res io_Copy_Cons
    using Cons.IH [of dst] Cons.IH [of "snd (Write dst buf)"]
    by (cases "room dst")
      (auto simp: accepts_def room_Write written_Write split: option.splits prod.splits)
qed

lemma io_Copy_status:
  "status (fst (snd (io_Copy dst src))) =
     (if delivered src = [] then status dst
      else Some (case status dst of None \<Rightarrow> StatusOK | Some c \<Rightarrow> c))"
proof (induction src arbitrary: dst)
  case Nil
  then show ?case by simp
next
  case (Cons res src)
  obtain buf er where res: "res = (buf, er)" by (cases res)
  show ?case
    unfolding res io_Copy_Cons
    using Cons.IH [of dst] Cons.IH [of "snd (Write dst buf)"]
    by (cases "status dst") (auto simp: status_Write split: option.splits prod.splits)
qed

lemma io_Copy_header: "header (fst (snd (io_Copy dst src))) = header dst"
proof (induction src arbitrary: dst)
  case Nil
  then show ?case by simp
next
  case (Cons res src)
  obtain buf er where res: "res = (buf, er)" by (cases res)
  show ?case
    unfolding res io_Copy_Cons
    using Cons.IH [of dst] Cons.IH [of "snd (Write dst buf)"]
    by (auto simp: header_Write split: option.splits prod.splits)
qed

section \<open>The echo handler\<close>

lemma EchoHandler_writer:
  "fst (EchoHandler_ServeHTTP log w r) = fst (snd (io_Copy w (Body r)))"
  by (simp add: EchoHandler_ServeHTTP_def split: prod.splits option.splits)

lemma EchoHandler_logger:
  "snd (snd (EchoHandler_ServeHTTP log w r)) =
     (case snd (fst (io_Copy w (Body r))) of
        None \<Rightarrow> log
      | Some e \<Rightarrow> log @ [(WarnLevel, ''Failed to handle request'', [zap_Error e])])"
  by (simp add: EchoHandler_ServeHTTP_def Logger_Warn_def split: prod.splits option.splits)





text \<open>
  Claim C5. When writing the response fails (the connection takes only \<open>k\<close> bytes and
  the body delivers more), the echo handler writes one entry to the log, at warning
  level, carrying the write error, and does nothing else: it sets no header, the
  status is the 200 that the first write implied, never an error status, and the
  response body is the \<open>k\<close> bytes that went out. And for every input whatever, the
  handler returns, having logged nothing or one warning, with the status and the
  header as they were or the implied 200: it has no result through which a failure
  could reach its caller.
\<close>

theorem EchoHandler_write_failure_only_warns:
  "(k < length (delivered (Body r)) \<longrightarrow>
      (case EchoHandler_ServeHTTP log (newResponse (Some k)) r of
         (w', r', log') \<Rightarrow>
           log' = log @ [(WarnLevel, ''Failed to handle request'', [zap_Error write_failed])] \<and>
           status w' = Some StatusOK \<and> header w' = [] \<and>
           written w' = take k (delivered (Body r)))) \<and>
   (\<exists>w' r' es.
      EchoHandler_ServeHTTP log w r = (w', r', log @ es) \<and>
      (es = [] \<or> (\<exists>e. es = [(WarnLevel, ''Failed to handle request'', [zap_Error e])])) \<and>
      (status w' = status w \<or> status w' = Some StatusOK) \<and> header w' = header w)"
proof (intro conjI impI)
  assume less: "k < length (delivered (Body r))"
  let ?w = "newResponse (Some k)"
  have ne: "delivered (Body r) \<noteq> []" using less by auto
  have lg: "snd (snd (EchoHandler_ServeHTTP log ?w r)) =
      log @ [(WarnLevel, ''Failed to handle request'', [zap_Error write_failed])]"
    using less io_Copy_error [of ?w "Body r"]
    by (simp add: EchoHandler_logger accepts_def newResponse_def)
  have st: "status (fst (EchoHandler_ServeHTTP log ?w r)) = Some StatusOK"
    using ne io_Copy_status [of ?w "Body r"] by (simp add: EchoHandler_writer newResponse_def)
  have hd: "header (fst (EchoHandler_ServeHTTP log ?w r)) = []"
    using io_Copy_header [of ?w "Body r"] by (simp add: EchoHandler_writer newResponse_def)
  have wr: "written (fst (EchoHandler_ServeHTTP log ?w r)) = take k (delivered (Body r))"
    using io_Copy_written [of ?w "Body r"] by (simp add: EchoHandler_writer newResponse_def)
  from lg st hd wr
  show "case EchoHandler_ServeHTTP log ?w r of
          (w', r', log') \<Rightarrow>
            log' = log @ [(WarnLevel, ''Failed to handle request'', [zap_Error write_failed])] \<and>
            status w' = Some StatusOK \<and> header w' = [] \<and>
            written w' = take k (delivered (Body r))"
    by (auto split: prod.splits)
next
  obtain w' r' log' where eq: "EchoHandler_ServeHTTP log w r = (w', r', log')"
    by (cases "EchoHandler_ServeHTTP log w r") auto
  have lg: "\<exists>es. log' = log @ es \<and>
      (es = [] \<or> (\<exists>e. es = [(WarnLevel, ''Failed to handle request'', [zap_Error e])]))"
    using EchoHandler_logger [of log w r] eq
    by (cases "snd (fst (io_Copy w (Body r)))") auto
  have st: "status w' = status w \<or> status w' = Some StatusOK"
    using io_Copy_status [of w "Body r"] EchoHandler_writer [of log w r] eq
    by (cases "status w") (auto split: if_splits)
  have hd: "header w' = header w"
    using io_Copy_header [of w "Body r"] EchoHandler_writer [of log w r] eq by simp
  from eq lg st hd
  show "\<exists>w' r' es.
      EchoHandler_ServeHTTP log w r = (w', r', log @ es) \<and>
      (es = [] \<or> (\<exists>e. es = [(WarnLevel, ''Failed to handle request'', [zap_Error e])])) \<and>
      (status w' = status w \<or> status w' = Some StatusOK) \<and> header w' = header w"
    by blast
qed

text \<open>The body \<open>abc\<close> on a connection that takes two bytes.\<close>

theorem EchoHandler_write_failure_only_warns_witness:
  "(2::nat) < length (delivered (Body \<lparr>Method = ''POST'', Path = ''/echo'', Body = [(''abc'', Some EOF)]\<rparr>)) \<and>
   (case EchoHandler_ServeHTTP [] (newResponse (Some 2))
        \<lparr>Method = ''POST'', Path = ''/echo'', Body = [(''abc'', Some EOF)]\<rparr> of
      (w', r', log') \<Rightarrow>
        log' = [(WarnLevel, ''Failed to handle request'', [zap_Error write_failed])] \<and>
        status w' = Some StatusOK \<and> header w' = [] \<and> written w' = ''ab'')"
proof -
  let ?r = "\<lparr>Method = ''POST'', Path = ''/echo'', Body = [(''abc'', Some EOF)]\<rparr>"
  have h: "(2::nat) < length (delivered (Body ?r))"
    by simp
  from EchoHandler_write_failure_only_warns [of 2 ?r "[]" "newResponse None", THEN conjunct1] h
  have "case EchoHandler_ServeHTTP [] (newResponse (Some 2)) ?r of
      (w', r', log') \<Rightarrow>
        log' = [] @ [(WarnLevel, ''Failed to handle request'', [zap_Error write_failed])] \<and>
        status w' = Some StatusOK \<and> header w' = [] \<and>
        written w' = take 2 (delivered (Body ?r))"
    by (rule mp)
  with h show ?thesis by simp
qed

section \<open>The hello handler\<close>

text \<open>
  \<^verbatim>\<open>io.ReadAll\<close> returns the bytes delivered and the first error, and leaves the
  reader just behind the call that ended the reading.
\<close>

lemma io_ReadAll_result: "fst (io_ReadAll r) = (delivered r, first_error r)"
proof (induction r)
  case Nil
  then show ?case by simp
next
  case (Cons res r)
  obtain buf er where res: "res = (buf, er)" by (cases res)
  show ?case using Cons.IH unfolding res
    by (cases er) (auto split: prod.splits)
qed

lemma io_ReadAll_rest:
  "snd (io_ReadAll r) = drop (Suc (length (takeWhile (\<lambda>res. snd res = None) r))) r"
proof (induction r)
  case Nil
  then show ?case by simp
next
  case (Cons res r)
  obtain buf er where res: "res = (buf, er)" by (cases res)
  show ?case using Cons.IH unfolding res
    by (cases er) (auto split: prod.splits)
qed

lemma Sprintf_Hello: "Sprintf ''Hello, %s\<newline>'' [body] = ''Hello, '' @ body @ ''\<newline>''"
  by simp

lemma status_http_Error:
  "status (http_Error w msg code) = Some (case status w of None \<Rightarrow> code | Some c \<Rightarrow> c)"
  by (cases "status w")
    (simp_all add: http_Error_def fmt_Fprintln_def status_Write Header_Set_def WriteHeader_def Let_def)

lemma written_http_Error:
  "written (http_Error w msg code) =
     written w @ (case room w of None \<Rightarrow> msg @ ''\<newline>'' | Some k \<Rightarrow> take k (msg @ ''\<newline>''))"
  by (cases "room w")
    (simp_all add: http_Error_def fmt_Fprintln_def written_Write Header_Set_def WriteHeader_def Let_def)

lemma HelloHandler_read_ok:
  assumes "first_error (Body r) = None"
  shows "HelloHandler_ServeHTTP log w r =
     (case Write w (''Hello, '' @ delivered (Body r) @ ''\<newline>'') of
        ((n, err'), w') \<Rightarrow>
          (case err' of
             Some e \<Rightarrow>
               (http_Error w' ''Internal server error'' StatusInternalServerError,
                r\<lparr>Body := snd (io_ReadAll (Body r))\<rparr>,
                log @ [(ErrorLevel, ''Failed to write response'', [zap_Error e])])
           | None \<Rightarrow> (w', r\<lparr>Body := snd (io_ReadAll (Body r))\<rparr>, log)))"
proof -
  obtain rest where "io_ReadAll (Body r) = ((delivered (Body r), None), rest)"
    using io_ReadAll_result [of "Body r"] assms by (cases "io_ReadAll (Body r)") auto
  then show ?thesis
    by (simp add: HelloHandler_ServeHTTP_def fmt_Fprintf_def Logger_Error_def
        split: prod.splits option.splits)
qed

lemma HelloHandler_read_failed:
  assumes "first_error (Body r) = Some e"
  shows "HelloHandler_ServeHTTP log w r =
     (http_Error w ''Internal server error'' StatusInternalServerError,
      r\<lparr>Body := snd (io_ReadAll (Body r))\<rparr>,
      log @ [(ErrorLevel, ''Failed to read request'', [zap_Error e])])"
proof -
  obtain rest where "io_ReadAll (Body r) = ((delivered (Body r), Some e), rest)"
    using io_ReadAll_result [of "Body r"] assms by (cases "io_ReadAll (Body r)") auto
  then show ?thesis
    by (simp add: HelloHandler_ServeHTTP_def Logger_Error_def)
qed

text \<open>
  The successful run: the body is read to its end and the connection takes the
  greeting.
\<close>

lemma HelloHandler_sent:
  assumes "first_error body = None"
    and "accepts (newResponse rm) (length (''Hello, '' @ delivered body @ ''\<newline>''))"
  shows "\<exists>w' r'.
           HelloHandler_ServeHTTP log (newResponse rm) \<lparr>Method = m, Path = p, Body = body\<rparr> =
             (w', r', log) \<and>
           written w' = ''Hello, '' @ delivered body @ ''\<newline>'' \<and>
           status w' = Some StatusOK"
proof -
  let ?w = "newResponse rm" and ?r = "\<lparr>Method = m, Path = p, Body = body\<rparr>"
  let ?out = "''Hello, '' @ delivered body @ ''\<newline>''"
  have acc: "accepts ?w (length ?out)" using assms(2) .
  have "fst (Write ?w ?out) = (length ?out, None)"
    using acc by (simp only: fst_Write if_True)
  then obtain w' where W: "Write ?w ?out = ((length ?out, None), w')"
    by (cases "Write ?w ?out") auto
  have wr: "written w' = ?out"
    using written_Write [of ?w ?out] acc W
    by (cases rm) (simp_all add: newResponse_def accepts_def)
  have st: "status w' = Some StatusOK"
    using status_Write [of ?w ?out] W by (simp add: newResponse_def)
  have "HelloHandler_ServeHTTP log ?w ?r = (w', ?r\<lparr>Body := snd (io_ReadAll body)\<rparr>, log)"
    using HelloHandler_read_ok [of ?r log ?w] assms(1) W by simp
  with wr st show ?thesis by blast
qed

text \<open>
  Claim C2. For every text \<open>T\<close> that the request body delivers, when reading the body
  succeeds and writing succeeds, the hello handler leaves a response whose body is
  exactly \<open>Hello, \<close> followed by \<open>T\<close> and a newline, with status 200; nothing is logged.
\<close>

theorem HelloHandler_greets:
  assumes "first_error body = None"
    and "delivered body = T"
    and "accepts (newResponse rm) (length (''Hello, '' @ T @ ''\<newline>''))"
  shows "case HelloHandler_ServeHTTP log (newResponse rm) \<lparr>Method = m, Path = p, Body = body\<rparr> of
           (w', r', log') \<Rightarrow>
             written w' = ''Hello, '' @ T @ ''\<newline>'' \<and> status w' = Some StatusOK \<and> log' = log"
proof -
  have "accepts (newResponse rm) (length (''Hello, '' @ delivered body @ ''\<newline>''))"
    using assms(2,3) by simp
  from HelloHandler_sent [OF assms(1) this, of log m p] assms(2)
  show ?thesis by auto
qed

text \<open>The body \<open>world\<close>, in two chunks: the response is \<open>Hello, world\<close> and a newline.\<close>

theorem HelloHandler_greets_witness:
  "first_error [(''wor'', None), (''ld'', None)] = None \<and>
   delivered [(''wor'', None), (''ld'', None)] = ''world'' \<and>
   accepts (newResponse None) (length (''Hello, '' @ ''world'' @ ''\<newline>'')) \<and>
   (case HelloHandler_ServeHTTP [] (newResponse None)
        \<lparr>Method = ''POST'', Path = ''/hello'', Body = [(''wor'', None), (''ld'', None)]\<rparr> of
      (w', r', log') \<Rightarrow>
        written w' = ''Hello, world\<newline>'' \<and> status w' = Some StatusOK \<and> log' = [])"
proof -
  have h1: "first_error [(''wor'', None), (''ld'', None)] = None" by simp
  have h2: "delivered [(''wor'', None), (''ld'', None)] = ''world''" by simp
  have h3: "accepts (newResponse None) (length (''Hello, '' @ ''world'' @ ''\<newline>''))"
    by (simp add: accepts_def newResponse_def)
  from HelloHandler_greets [OF h1 h2 h3, where log = "[]" and m = "''POST''" and p = "''/hello''"]
    h1 h2 h3
  show ?thesis by simp
qed

text \<open>
  Claim C4. When the request body cannot be read (a \<^verbatim>\<open>Read\<close> returns an error that is
  not the end of the stream), the hello handler answers with status 500, writes one
  entry to the log, at error level, carrying the read error, and sends the plain
  message \<open>Internal server error\<close> (as much of it as the connection takes): no
  greeting. It does not read again: the body is left just behind the call that failed.
\<close>

theorem HelloHandler_read_failure:
  assumes "first_error body = Some e"
  shows "case HelloHandler_ServeHTTP log (newResponse rm) \<lparr>Method = m, Path = p, Body = body\<rparr> of
           (w', r', log') \<Rightarrow>
             status w' = Some StatusInternalServerError \<and>
             log' = log @ [(ErrorLevel, ''Failed to read request'', [zap_Error e])] \<and>
             written w' =
               (case rm of
                  None \<Rightarrow> ''Internal server error\<newline>''
                | Some k \<Rightarrow> take k ''Internal server error\<newline>'') \<and>
             (\<nexists>T. written w' = ''Hello, '' @ T) \<and>
             Body r' = drop (Suc (length (takeWhile (\<lambda>res. snd res = None) body))) body"
proof -
  let ?w = "newResponse rm" and ?r = "\<lparr>Method = m, Path = p, Body = body\<rparr>"
  let ?w' = "http_Error ?w ''Internal server error'' StatusInternalServerError"
  have eq: "HelloHandler_ServeHTTP log ?w ?r =
      (?w', ?r\<lparr>Body := snd (io_ReadAll body)\<rparr>,
       log @ [(ErrorLevel, ''Failed to read request'', [zap_Error e])])"
    using HelloHandler_read_failed [of ?r e log ?w] assms by simp
  have st: "status ?w' = Some StatusInternalServerError"
    by (simp add: status_http_Error newResponse_def)
  have wr: "written ?w' =
      (case rm of
         None \<Rightarrow> ''Internal server error\<newline>''
       | Some k \<Rightarrow> take k ''Internal server error\<newline>'')"
    by (cases rm) (simp_all add: written_http_Error newResponse_def)
  have ng: "\<nexists>T. written ?w' = ''Hello, '' @ T"
  proof (cases rm)
    case None
    with wr show ?thesis by simp
  next
    case (Some k)
    with wr show ?thesis by (cases k) simp_all
  qed
  from eq st wr ng show ?thesis by (simp add: io_ReadAll_rest)
qed

text \<open>A body that breaks off after \<open>world\<close>, with one more chunk behind the error.\<close>

theorem HelloHandler_read_failure_witness:
  "first_error [(''wor'', None), (''ld'', Some (Err ''unexpected EOF'')), (''x'', None)] =
     Some (Err ''unexpected EOF'') \<and>
   (case HelloHandler_ServeHTTP [] (newResponse None)
        \<lparr>Method = ''POST'', Path = ''/hello'',
         Body = [(''wor'', None), (''ld'', Some (Err ''unexpected EOF'')), (''x'', None)]\<rparr> of
      (w', r', log') \<Rightarrow>
        status w' = Some 500 \<and>
        log' = [(ErrorLevel, ''Failed to read request'', [zap_Error (Err ''unexpected EOF'')])] \<and>
        written w' = ''Internal server error\<newline>'' \<and>
        Body r' = [(''x'', None)])"
proof -
  have h: "first_error [(''wor'', None), (''ld'', Some (Err ''unexpected EOF'')), (''x'', None)] =
      Some (Err ''unexpected EOF'')"
    by simp
  from HelloHandler_read_failure [OF h, where log = "[]" and rm = None and m = "''POST''"
      and p = "''/hello''"] h
  show ?thesis by (auto simp: StatusInternalServerError_def split: prod.splits)
qed

text \<open>
  Claim C10. The hello handler formats the body with \<^verbatim>\<open>%s\<close> into
  \<^verbatim>\<open>"Hello, %s\n"\<close>: for every byte sequence that a readable body delivers, of any
  bytes whatever and also empty, the response body is the seven bytes \<open>Hello, \<close>,
  then the bytes of the body as they are, then a newline. The body's bytes can be
  read back from the response unchanged; no hypothesis restricts them to a text
  encoding.
\<close>

theorem HelloHandler_formats_raw_bytes:
  assumes "first_error body = None"
    and "accepts (newResponse rm) (length (''Hello, '' @ delivered body @ ''\<newline>''))"
  shows "case HelloHandler_ServeHTTP log (newResponse rm) \<lparr>Method = m, Path = p, Body = body\<rparr> of
           (w', r', log') \<Rightarrow>
             written w' = Sprintf ''Hello, %s\<newline>'' [delivered body] \<and>
             written w' = ''Hello, '' @ delivered body @ ''\<newline>'' \<and>
             drop 7 (butlast (written w')) = delivered body"
proof -
  from HelloHandler_sent [OF assms, of log m p]
  show ?thesis by (auto simp: butlast_append)
qed

text \<open>The empty body, and the two bytes FF FE, which are not UTF-8.\<close>

theorem HelloHandler_formats_raw_bytes_witness:
  "(first_error [] = None \<and> accepts (newResponse None) (length (''Hello, '' @ delivered [] @ ''\<newline>'')) \<and>
    (case HelloHandler_ServeHTTP [] (newResponse None)
          \<lparr>Method = ''POST'', Path = ''/hello'', Body = []\<rparr> of
       (w', r', log') \<Rightarrow> written w' = ''Hello, \<newline>'')) \<and>
   (first_error [([CHR 0xFF, CHR 0xFE], Some EOF)] = None \<and>
    accepts (newResponse None)
      (length (''Hello, '' @ delivered [([CHR 0xFF, CHR 0xFE], Some EOF)] @ ''\<newline>'')) \<and>
    (case HelloHandler_ServeHTTP [] (newResponse None)
          \<lparr>Method = ''POST'', Path = ''/hello'', Body = [([CHR 0xFF, CHR 0xFE], Some EOF)]\<rparr> of
       (w', r', log') \<Rightarrow> written w' = ''Hello, '' @ [CHR 0xFF, CHR 0xFE] @ ''\<newline>''))"
proof -
  have a1: "first_error [] = None" by simp
  have a2: "accepts (newResponse None) (length (''Hello, '' @ delivered [] @ ''\<newline>''))"
    by (simp add: accepts_def newResponse_def)
  have b1: "first_error [([CHR 0xFF, CHR 0xFE], Some EOF)] = None" by simp
  have b2: "accepts (newResponse None)
      (length (''Hello, '' @ delivered [([CHR 0xFF, CHR 0xFE], Some EOF)] @ ''\<newline>''))"
    by (simp add: accepts_def newResponse_def)
  from HelloHandler_formats_raw_bytes [OF a1 a2, where log = "[]" and m = "''POST''" and p = "''/hello''"]
    HelloHandler_formats_raw_bytes [OF b1 b2, where log = "[]" and m = "''POST''" and p = "''/hello''"]
    a1 a2 b1 b2
  show ?thesis by (simp split: prod.splits)
qed

section \<open>The route table\<close>

text \<open>
  \<^verbatim>\<open>NewServeMux\<close> returns a table exactly when no pattern is empty and no pattern
  occurs twice; the table then lists the routes under their patterns, in order.
\<close>

lemma ServeMux_Handle_Inr:
  "ServeMux_Handle mux pattern h = Inr mux' \<longleftrightarrow>
     pattern \<noteq> [] \<and> pattern \<notin> fst ` set mux \<and> mux' = mux @ [(pattern, h)]"
  by (auto simp: ServeMux_Handle_def map_of_eq_None_iff)

lemma NewServeMux_loop_Inr:
  "NewServeMux_loop mux routes = Inr mux' \<longleftrightarrow>
     [] \<notin> Pattern ` set routes \<and> distinct (map Pattern routes) \<and>
     Pattern ` set routes \<inter> fst ` set mux = {} \<and>
     mux' = mux @ map (\<lambda>route. (Pattern route, route)) routes"
proof (induction routes arbitrary: mux)
  case Nil
  then show ?case by auto
next
  case (Cons route routes)
  show ?case
  proof (cases "ServeMux_Handle mux (Pattern route) route")
    case (Inl panic)
    moreover from Inl have "Pattern route = [] \<or> Pattern route \<in> fst ` set mux"
      using ServeMux_Handle_Inr [of mux "Pattern route" route] by (metis Inl_Inr_False)
    ultimately show ?thesis by auto
  next
    case (Inr mux1)
    then have h: "Pattern route \<noteq> []" "Pattern route \<notin> fst ` set mux"
      "mux1 = mux @ [(Pattern route, route)]"
      by (simp_all add: ServeMux_Handle_Inr)
    show ?thesis
      using Inr h Cons.IH [of mux1] by (auto simp: image_Un)
  qed
qed

lemma NewServeMux_Inr:
  "NewServeMux routes = Inr mux \<longleftrightarrow>
     [] \<notin> Pattern ` set routes \<and> distinct (map Pattern routes) \<and>
     mux = map (\<lambda>route. (Pattern route, route)) routes"
  by (simp add: NewServeMux_def http_NewServeMux_def NewServeMux_loop_Inr)

text \<open>With a pattern that occurs twice the loop ends in a panic of \<^verbatim>\<open>Handle\<close>.\<close>

lemma NewServeMux_loop_duplicate:
  assumes "distinct (map fst mux)"
    and "\<not> distinct (map fst mux @ map Pattern routes)"
  shows "NewServeMux_loop mux routes = Inl ''http: invalid pattern'' \<or>
         (\<exists>route \<in> set routes.
            NewServeMux_loop mux routes = Inl (''http: multiple registrations for '' @ Pattern route))"
  using assms
proof (induction routes arbitrary: mux)
  case Nil
  then show ?case by simp
next
  case (Cons route routes)
  show ?case
  proof (cases "ServeMux_Handle mux (Pattern route) route")
    case (Inl panic)
    then show ?thesis
      by (auto simp: ServeMux_Handle_def split: if_splits)
  next
    case (Inr mux1)
    then have h: "Pattern route \<notin> fst ` set mux" "mux1 = mux @ [(Pattern route, route)]"
      by (simp_all add: ServeMux_Handle_Inr)
    have d: "distinct (map fst mux1)" using h Cons.prems(1) by simp
    have nd: "\<not> distinct (map fst mux1 @ map Pattern routes)"
      using h(2) Cons.prems(2) by simp
    from Cons.IH [OF d nd] Inr show ?thesis by auto
  qed
qed

text \<open>The two routes of the program.\<close>

lemma Pattern_Echo: "Pattern NewEchoHandler = ''/echo''"
  by (simp add: NewEchoHandler_def EchoHandler_Pattern_def)

lemma Pattern_Hello: "Pattern NewHelloHandler = ''/hello''"
  by (simp add: NewHelloHandler_def HelloHandler_Pattern_def)


text \<open>
  Claim C3. If two handlers register the same pattern, the construction of the route
  table does not return: \<^verbatim>\<open>Handle\<close> panics at the registration that repeats a
  pattern (or earlier, at an empty pattern), so \<^verbatim>\<open>NewServeMux\<close> yields no table and
  the application is not built. The duplicate thus shows at startup, before any
  server exists that could serve; it cannot show at dispatch, because every table
  that \<^verbatim>\<open>NewServeMux\<close> does return holds each pattern once.
\<close>

theorem NewServeMux_duplicate_pattern_panics:
  "(\<not> distinct (map Pattern routes) \<longrightarrow>
      (\<exists>panic. NewServeMux routes = Inl panic \<and> fx_New routes = Inl panic \<and>
         (panic = ''http: invalid pattern'' \<or>
          (\<exists>route \<in> set routes. panic = ''http: multiple registrations for '' @ Pattern route)))) \<and>
   (\<forall>mux. NewServeMux routes = Inr mux \<longrightarrow>
      distinct (map fst mux) \<and> map fst mux = map Pattern routes)"
proof (intro conjI impI allI)
  assume "\<not> distinct (map Pattern routes)"
  with NewServeMux_loop_duplicate [of http_NewServeMux routes]
  have "NewServeMux routes = Inl ''http: invalid pattern'' \<or>
      (\<exists>route \<in> set routes.
         NewServeMux routes = Inl (''http: multiple registrations for '' @ Pattern route))"
    by (simp add: NewServeMux_def http_NewServeMux_def)
  then show "\<exists>panic. NewServeMux routes = Inl panic \<and> fx_New routes = Inl panic \<and>
      (panic = ''http: invalid pattern'' \<or>
       (\<exists>route \<in> set routes. panic = ''http: multiple registrations for '' @ Pattern route))"
    by (auto simp: fx_New_def)
next
  fix mux
  assume "NewServeMux routes = Inr mux"
  then have "distinct (map Pattern routes)"
    and "mux = map (\<lambda>route. (Pattern route, route)) routes"
    by (simp_all add: NewServeMux_Inr)
  then show "distinct (map fst mux)" and "map fst mux = map Pattern routes"
    by (simp_all add: comp_def)
qed

text \<open>
  Two different handlers under the pattern \<open>/echo\<close>: a panic, and neither of them
  is registered in a table. The two routes of the program: a table.
\<close>

theorem NewServeMux_duplicate_pattern_panics_witness:
  "\<not> distinct (map Pattern [NewEchoHandler, NewHelloHandler\<lparr>Pattern := ''/echo''\<rparr>]) \<and>
   NewServeMux [NewEchoHandler, NewHelloHandler\<lparr>Pattern := ''/echo''\<rparr>] =
     Inl ''http: multiple registrations for /echo'' \<and>
   fx_New [NewEchoHandler, NewHelloHandler\<lparr>Pattern := ''/echo''\<rparr>] =
     Inl ''http: multiple registrations for /echo'' \<and>
   NewServeMux [NewEchoHandler, NewHelloHandler] =
     Inr [(''/echo'', NewEchoHandler), (''/hello'', NewHelloHandler)] \<and>
   distinct (map fst [(''/echo'', NewEchoHandler), (''/hello'', NewHelloHandler)])"
proof -
  let ?dup = "[NewEchoHandler, NewHelloHandler\<lparr>Pattern := ''/echo''\<rparr>]"
  have h: "\<not> distinct (map Pattern ?dup)"
    by (simp add: Pattern_Echo)
  have p: "NewServeMux ?dup = Inl ''http: multiple registrations for /echo''"
    by (simp add: NewServeMux_def http_NewServeMux_def ServeMux_Handle_def Pattern_Echo)
  have t: "NewServeMux [NewEchoHandler, NewHelloHandler] =
      Inr [(''/echo'', NewEchoHandler), (''/hello'', NewHelloHandler)]"
    by (simp add: NewServeMux_def http_NewServeMux_def ServeMux_Handle_def Pattern_Echo
        Pattern_Hello)
  from NewServeMux_duplicate_pattern_panics [of ?dup] h p
  have n: "fx_New ?dup = Inl ''http: multiple registrations for /echo''"
    by auto
  from NewServeMux_duplicate_pattern_panics [of "[NewEchoHandler, NewHelloHandler]"] t
  have d: "distinct (map fst [(''/echo'', NewEchoHandler), (''/hello'', NewHelloHandler)])"
    by blast
  from h p n t d show ?thesis by (intro conjI)
qed

subsection \<open>Dispatch\<close>











section \<open>The lifecycle hooks\<close>

text \<open>
  Claim C7. The server is built for the address \<open>:8080\<close>, and the start hook asks
  once for a listener on it. If the bind fails, the hook returns the bind error, having
  logged nothing and started no serving loop, and does not ask again. If the bind
  succeeds, the hook logs the address, starts the serving loop on the listener with
  \<^verbatim>\<open>go\<close> (it does not call it, so it does not wait for it) and returns \<^verbatim>\<open>nil\<close>.
\<close>

theorem OnStart_binds_fixed_address:
  "Addr (NewHTTPServer mux) = '':8080'' \<and>
   (net_Listen ''tcp'' '':8080'' = Inl err \<longrightarrow>
      OnStart net_Listen (NewHTTPServer mux) s =
        (Some err, s\<lparr>effects := effects s @ [Listen ''tcp'' '':8080'']\<rparr>)) \<and>
   (net_Listen ''tcp'' '':8080'' = Inr ln \<longrightarrow>
      OnStart net_Listen (NewHTTPServer mux) s =
        (None,
         s\<lparr>logger := logger s @
              [(InfoLevel, ''Starting HTTP server at'', [zap_String ''addr'' '':8080''])],
            effects := effects s @ [Listen ''tcp'' '':8080'', Go_Serve (NewHTTPServer mux) ln]\<rparr>))"
  by (simp add: OnStart_def NewHTTPServer_def Logger_Info_def Let_def)

text \<open>A port that is taken, and a port that is free.\<close>

theorem OnStart_binds_fixed_address_witness:
  "OnStart (\<lambda>network address. Inl (Err ''bind: address already in use'')) (NewHTTPServer [])
       \<lparr>logger = [], effects = []\<rparr> =
     (Some (Err ''bind: address already in use''),
      \<lparr>logger = [], effects = [Listen ''tcp'' '':8080'']\<rparr>) \<and>
   OnStart (\<lambda>network address. Inr (Listener network address)) (NewHTTPServer [])
       \<lparr>logger = [], effects = []\<rparr> =
     (None,
      \<lparr>logger = [(InfoLevel, ''Starting HTTP server at'', [zap_String ''addr'' '':8080''])],
       effects = [Listen ''tcp'' '':8080'',
                  Go_Serve (NewHTTPServer []) (Listener ''tcp'' '':8080'')]\<rparr>)"
  using OnStart_binds_fixed_address [of "[]" "\<lambda>network address. Inl (Err ''bind: address already in use'')"
      "Err ''bind: address already in use''" "\<lparr>logger = [], effects = []\<rparr>"]
    OnStart_binds_fixed_address [of "[]" "\<lambda>network address. Inr (Listener network address)"
      _ "\<lparr>logger = [], effects = []\<rparr>" "Listener ''tcp'' '':8080''"]
  by simp

text \<open>
  The stop hook hands on what \<^verbatim>\<open>Shutdown\<close> returns, and does nothing else than call
  it: what a call on a server already stopped returns is the library's to say.
\<close>

lemma OnStop_result:
  "OnStop shutdown_result srv s = (res, s') \<Longrightarrow>
     res = shutdown_result \<and> logger s' = logger s \<and> effects s' = effects s @ [Shutdown srv]"
  by (auto simp: OnStop_def)

end
